theory Spec2Isabelle
  imports Complex_Main
begin

section \<open>The live order book of cbpro/order\_book.py\<close>

text \<open>
  The class \<^verbatim>\<open>OrderBook\<close> keeps two \<^verbatim>\<open>SortedDict\<close>s from price to the list of
  orders resting at that price, and the sequence number of the last message applied.
  Every method is embedded as a function from the book (and the message) to a result
  and the book afterwards. A Python exception is the \<open>Inl\<close> of the result; the book that
  comes with it is the object as the raise left it.
\<close>

subsection \<open>Values\<close>

text \<open>
  A numeric field of a message is either text as the feed delivers it (\<open>Txt r\<close>, a
  non-empty literal denoting the decimal \<open>r\<close>) or a \<^verbatim>\<open>Decimal\<close> object (\<open>Dec r\<close>, what
  \<^verbatim>\<open>reset_book\<close> passes to \<^verbatim>\<open>add\<close>). \<^verbatim>\<open>Decimal(v)\<close> gives \<open>r\<close> for both. They differ
  in truth value, which \<^verbatim>\<open>x or y\<close> tests: a non-empty string is always true, a
  \<^verbatim>\<open>Decimal\<close> is true iff it is not zero. Decimals are exact rationals here: the
  rounding of the decimal context (28 significant digits) is out of the model, and so
  is text that \<^verbatim>\<open>Decimal\<close> would reject.
\<close>

datatype pynum = Txt rat | Dec rat

fun Decimal :: "pynum \<Rightarrow> rat" where
  "Decimal (Txt r) = r"
| "Decimal (Dec r) = r"

fun truthy :: "pynum \<Rightarrow> bool" where
  "truthy (Txt r) = True"
| "truthy (Dec r) = (r \<noteq> 0)"

datatype error =
    KeyError string
  | IndexError
  | AssertionError
  | RequestError

text \<open>An order as \<^verbatim>\<open>add\<close> stores it: the dict with keys id, side, price, size.\<close>

record order =
  oid :: string
  oside :: string
  oprice :: rat
  osize :: rat

text \<open>
  A message is a dict; a field is \<open>None\<close> when the key is absent. Only the keys the
  book reads are kept.
\<close>

record message =
  msg_sequence :: "int option"
  msg_type :: "string option"
  msg_side :: "string option"
  msg_price :: "pynum option"
  msg_size :: "pynum option"
  msg_remaining_size :: "pynum option"
  msg_new_size :: "pynum option"
  msg_order_id :: "string option"
  msg_id :: "string option"
  msg_maker_order_id :: "string option"
  msg_reason :: "string option"
  msg_product_id :: "string option"

text \<open>
  What a method returns: a pair (price or \<^verbatim>\<open>None\<close>, size change), a diagnostic string,
  or \<^verbatim>\<open>None\<close>.
\<close>

datatype outcome =
    Change "rat option" rat
  | Message string
  | PyNone

subsection \<open>SortedDict\<close>

text \<open>
  \<^verbatim>\<open>sortedcontainers.SortedDict\<close> is a library class: a dict whose keys are kept in
  ascending order. It is an association list in ascending key order, one entry a key.
\<close>

type_synonym 'v sorted_dict = "(rat \<times> 'v) list"

definition sd_get :: "'v sorted_dict \<Rightarrow> rat \<Rightarrow> 'v option" where
  "sd_get d k = map_of d k"

fun sd_setitem :: "rat \<Rightarrow> 'v \<Rightarrow> 'v sorted_dict \<Rightarrow> 'v sorted_dict" where
  "sd_setitem k v [] = [(k, v)]"
| "sd_setitem k v ((k', v') # d) =
     (if k = k' then (k, v) # d
      else if k < k' then (k, v) # (k', v') # d
      else (k', v') # sd_setitem k v d)"

text \<open>
  \<^verbatim>\<open>del d[k]\<close> raises KeyError when the key is absent. The key is always a price
  here, and the error is written with that name.
\<close>

definition sd_delitem :: "rat \<Rightarrow> 'v sorted_dict \<Rightarrow> error + 'v sorted_dict" where
  "sd_delitem k d =
     (if map_of d k = None then Inl (KeyError ''price'')
      else Inr (filter (\<lambda>kv. fst kv \<noteq> k) d))"

text \<open>
  \<^verbatim>\<open>peekitem(index)\<close> reads the key list at a Python index (negative counts from the
  end) and raises IndexError out of range.
\<close>

definition sd_peekitem :: "'v sorted_dict \<Rightarrow> int \<Rightarrow> error + (rat \<times> 'v)" where
  "sd_peekitem d i =
     (if 0 \<le> i \<and> i < int (length d) then Inr (d ! nat i)
      else if i < 0 \<and> - int (length d) \<le> i then Inr (d ! nat (int (length d) + i))
      else Inl IndexError)"

definition sd_sorted :: "'v sorted_dict \<Rightarrow> bool" where
  "sd_sorted d = sorted_wrt (<) (map fst d)"

subsection \<open>The book\<close>

text \<open>
  Modelled from the spec: \<^verbatim>\<open>cbpro.public_client.PublicClient\<close> is missing;
  \<^verbatim>\<open>get_product_order_book\<close> is the spec's SyncProvider, which returns the sequence
  number and the (price, size, order id) triples of each side. The responses of the
  successive calls are a parameter of the model, held in the book as \<open>client\<close>; a
  call with no response left is a failed request.
\<close>

record snapshot =
  snap_sequence :: int
  snap_bids :: "(rat \<times> rat \<times> string) list"
  snap_asks :: "(rat \<times> rat \<times> string) list"

record book =
  asks :: "order list sorted_dict"
  bids :: "order list sorted_dict"
  sequence :: int
  current_ticker :: "string option"
  client :: "snapshot list"

definition get_product_order_book :: "book \<Rightarrow> error + (snapshot \<times> book)" where
  "get_product_order_book b =
     (case client b of
        [] \<Rightarrow> Inl RequestError
      | res # rest \<Rightarrow> Inr (res, b\<lparr>client := rest\<rparr>))"

text \<open>\<^verbatim>\<open>__init__\<close>: both sides empty, sequence -1.\<close>

definition init :: "snapshot list \<Rightarrow> book" where
  "init cl = \<lparr>asks = [], bids = [], sequence = -1, current_ticker = None, client = cl\<rparr>"

type_synonym 'a result = "(error + 'a) \<times> book"

definition get_ask :: "book \<Rightarrow> error + rat" where
  "get_ask b = (case sd_peekitem (asks b) 0 of Inl e \<Rightarrow> Inl e | Inr kv \<Rightarrow> Inr (fst kv))"

definition get_asks :: "book \<Rightarrow> rat \<Rightarrow> order list option" where
  "get_asks b price = sd_get (asks b) price"

definition remove_asks :: "rat \<Rightarrow> book \<Rightarrow> unit result" where
  "remove_asks price b =
     (case sd_delitem price (asks b) of
        Inl e \<Rightarrow> (Inl e, b)
      | Inr d \<Rightarrow> (Inr (), b\<lparr>asks := d\<rparr>))"

definition set_asks :: "rat \<Rightarrow> order list \<Rightarrow> book \<Rightarrow> book" where
  "set_asks price os b = b\<lparr>asks := sd_setitem price os (asks b)\<rparr>"

definition get_bid :: "book \<Rightarrow> error + rat" where
  "get_bid b = (case sd_peekitem (bids b) (-1) of Inl e \<Rightarrow> Inl e | Inr kv \<Rightarrow> Inr (fst kv))"

definition get_bids :: "book \<Rightarrow> rat \<Rightarrow> order list option" where
  "get_bids b price = sd_get (bids b) price"

definition remove_bids :: "rat \<Rightarrow> book \<Rightarrow> unit result" where
  "remove_bids price b =
     (case sd_delitem price (bids b) of
        Inl e \<Rightarrow> (Inl e, b)
      | Inr d \<Rightarrow> (Inr (), b\<lparr>bids := d\<rparr>))"

definition set_bids :: "rat \<Rightarrow> order list \<Rightarrow> book \<Rightarrow> book" where
  "set_bids price os b = b\<lparr>bids := sd_setitem price os (bids b)\<rparr>"

subsection \<open>add\<close>

text \<open>
  The dict literal of \<^verbatim>\<open>add\<close> evaluates its four values in order, so the first
  missing key decides the KeyError. \<^verbatim>\<open>order.get('order_id') or order['id']\<close> and
  \<^verbatim>\<open>order.get('size') or order['remaining_size']\<close> take the second operand when the
  first is absent or false.
\<close>

definition add_id :: "message \<Rightarrow> error + string" where
  "add_id m =
     (case msg_order_id m of
        Some i \<Rightarrow> (if i \<noteq> [] then Inr i
                   else (case msg_id m of None \<Rightarrow> Inl (KeyError ''id'') | Some j \<Rightarrow> Inr j))
      | None \<Rightarrow> (case msg_id m of None \<Rightarrow> Inl (KeyError ''id'') | Some j \<Rightarrow> Inr j))"

definition add_size :: "message \<Rightarrow> error + rat" where
  "add_size m =
     (case msg_size m of
        Some v \<Rightarrow> (if truthy v then Inr (Decimal v)
                   else (case msg_remaining_size m of
                           None \<Rightarrow> Inl (KeyError ''remaining_size'')
                         | Some w \<Rightarrow> Inr (Decimal w)))
      | None \<Rightarrow> (case msg_remaining_size m of
                   None \<Rightarrow> Inl (KeyError ''remaining_size'')
                 | Some w \<Rightarrow> Inr (Decimal w)))"

definition add_order :: "message \<Rightarrow> error + order" where
  "add_order m =
     (case add_id m of Inl e \<Rightarrow> Inl e | Inr i \<Rightarrow>
      (case msg_side m of None \<Rightarrow> Inl (KeyError ''side'') | Some s \<Rightarrow>
      (case msg_price m of None \<Rightarrow> Inl (KeyError ''price'') | Some p \<Rightarrow>
      (case add_size m of Inl e \<Rightarrow> Inl e | Inr z \<Rightarrow>
         Inr \<lparr>oid = i, oside = s, oprice = Decimal p, osize = z\<rparr>))))"

definition add :: "book \<Rightarrow> message \<Rightarrow> outcome result" where
  "add b m =
     (case add_order m of
        Inl e \<Rightarrow> (Inl e, b)
      | Inr ord \<Rightarrow>
         (if oside ord = ''buy'' then
            (case get_bids b (oprice ord) of
               None \<Rightarrow> (Inr (Change (Some (oprice ord)) (osize ord)),
                         set_bids (oprice ord) [ord] b)
             | Some os \<Rightarrow> (Inr (Change (Some (oprice ord)) (osize ord)),
                            set_bids (oprice ord) (os @ [ord]) b))
          else
            (case get_asks b (oprice ord) of
               None \<Rightarrow> (Inr (Change (Some (oprice ord)) (osize ord)),
                         set_asks (oprice ord) [ord] b)
             | Some os \<Rightarrow> (Inr (Change (Some (oprice ord)) (osize ord)),
                            set_asks (oprice ord) (os @ [ord]) b))))"

subsection \<open>remove\<close>

text \<open>
  The loop of \<^verbatim>\<open>remove\<close> over the level found: it copies the orders with another
  id, and at an order with the removal id it takes the order's size when no size was
  given, takes the order's price when the price is the sentinel -1, and sets
  \<^verbatim>\<open>found_order\<close>. The state is (kept orders, size, price, found\_order).
\<close>

fun remove_loop ::
  "string option \<Rightarrow> order list \<Rightarrow> order list \<times> rat \<times> rat \<times> bool
     \<Rightarrow> order list \<times> rat \<times> rat \<times> bool" where
  "remove_loop rid [] st = st"
| "remove_loop rid (x # xs) (kept, sz, price, found) =
     (if Some (oid x) \<noteq> rid then remove_loop rid xs (kept @ [x], sz, price, found)
      else remove_loop rid xs
             (kept, (if sz = 0 then osize x else sz),
              (if price = -1 then oprice x else price), True))"

text \<open>
  The end of \<^verbatim>\<open>remove\<close>: a size of 0 when no order was found, \<^verbatim>\<open>None\<close> for the
  sentinel price.
\<close>

definition remove_outcome :: "rat \<Rightarrow> rat \<Rightarrow> bool \<Rightarrow> outcome" where
  "remove_outcome price sz found =
     Change (if price = -1 then None else Some price) (- (if found then sz else 0))"

definition remove :: "book \<Rightarrow> message \<Rightarrow> outcome result" where
  "remove b m =
     (let removal_id = msg_order_id m;
          price = (case msg_price m of None \<Rightarrow> -1 | Some v \<Rightarrow> Decimal v);
          sz = (case msg_size m of None \<Rightarrow> 0 | Some v \<Rightarrow> Decimal v)
      in case msg_side m of
           None \<Rightarrow> (Inl (KeyError ''side''), b)
         | Some s \<Rightarrow>
            (if s = ''buy'' then
               (case get_bids b price of
                  None \<Rightarrow> (Inr (remove_outcome price sz False), b)
                | Some fbids \<Rightarrow>
                   (case remove_loop removal_id fbids ([], sz, price, False) of
                      (kept, sz', price', found) \<Rightarrow>
                        (if length kept > 0 then
                           (Inr (remove_outcome price' sz' found), set_bids price' kept b)
                         else
                           (case remove_bids price' b of
                              (Inl e, b') \<Rightarrow> (Inl e, b')
                            | (Inr u, b') \<Rightarrow> (Inr (remove_outcome price' sz' found), b')))))
             else
               (case get_asks b price of
                  None \<Rightarrow> (Inr (remove_outcome price sz False), b)
                | Some fasks \<Rightarrow>
                   (case remove_loop removal_id fasks ([], sz, price, False) of
                      (kept, sz', price', found) \<Rightarrow>
                        (if length kept > 0 then
                           (Inr (remove_outcome price' sz' found), set_asks price' kept b)
                         else
                           (case remove_asks price' b of
                              (Inl e, b') \<Rightarrow> (Inl e, b')
                            | (Inr u, b') \<Rightarrow> (Inr (remove_outcome price' sz' found), b')))))))"

subsection \<open>match\<close>

text \<open>
  \<^verbatim>\<open>if not bids\<close> holds for \<^verbatim>\<open>None\<close> and for the empty list. The \<^verbatim>\<open>assert\<close> reads
  \<^verbatim>\<open>order['maker_order_id']\<close>, a KeyError when the key is absent, and raises
  AssertionError when the head order has another id. A whole fill stores the rest of
  the list with \<^verbatim>\<open>set_bids(price, bids[1:])\<close>; a partial fill lowers the size of the
  head order.
\<close>

definition match_head ::
  "message \<Rightarrow> rat \<Rightarrow> order \<Rightarrow> order list \<Rightarrow> error + order list" where
  "match_head m sz x xs =
     (case msg_maker_order_id m of
        None \<Rightarrow> Inl (KeyError ''maker_order_id'')
      | Some mk \<Rightarrow>
         (if oid x \<noteq> mk then Inl AssertionError
          else if osize x = sz then Inr xs
          else Inr (x\<lparr>osize := osize x - sz\<rparr> # xs)))"

definition match :: "book \<Rightarrow> message \<Rightarrow> outcome result" where
  "match b m =
     (case msg_size m of None \<Rightarrow> (Inl (KeyError ''size''), b) | Some sv \<Rightarrow>
      (case msg_price m of None \<Rightarrow> (Inl (KeyError ''price''), b) | Some pv \<Rightarrow>
      (case msg_side m of None \<Rightarrow> (Inl (KeyError ''side''), b) | Some s \<Rightarrow>
         (let sz = Decimal sv; price = Decimal pv in
          if s = ''buy'' then
            (case get_bids b price of
               None \<Rightarrow> (Inr (Message ''Failed to find bids at this price for match''), b)
             | Some [] \<Rightarrow> (Inr (Message ''Failed to find bids at this price for match''), b)
             | Some (x # xs) \<Rightarrow>
                (case match_head m sz x xs of
                   Inl e \<Rightarrow> (Inl e, b)
                 | Inr os' \<Rightarrow> (Inr (Change (Some price) (- sz)), set_bids price os' b)))
          else
            (case get_asks b price of
               None \<Rightarrow> (Inr (Message ''Failed to find asks at this price for match''), b)
             | Some [] \<Rightarrow> (Inr (Message ''Failed to find asks at this price for match''), b)
             | Some (x # xs) \<Rightarrow>
                (case match_head m sz x xs of
                   Inl e \<Rightarrow> (Inl e, b)
                 | Inr os' \<Rightarrow> (Inr (Change (Some price) (- sz)), set_asks price os' b)))))))"

subsection \<open>change\<close>

text \<open>\<^verbatim>\<open>is_bid_side\<close> on a string reads its first character: IndexError on the empty string.\<close>

definition is_bid_side :: "string \<Rightarrow> error + bool" where
  "is_bid_side s = (case s of [] \<Rightarrow> Inl IndexError | c # cs \<Rightarrow> Inr (c = CHR ''b''))"

text \<open>\<^verbatim>\<open>xs.index(x)\<close>, called only when \<open>x\<close> is in the list: the first position of \<open>x\<close>.\<close>

fun list_index :: "'a list \<Rightarrow> 'a \<Rightarrow> nat" where
  "list_index [] x = 0"
| "list_index (y # ys) x = (if y = x then 0 else Suc (list_index ys x))"

text \<open>
  \<^verbatim>\<open>bids is None or not any(o['id'] == order['order_id'] for o in bids)\<close>: the generator
  reads \<^verbatim>\<open>order['order_id']\<close> at the first order, so an empty list gives False without a
  KeyError. The result is \<open>None\<close> when the test holds (no such order), and the id with
  the level otherwise.
\<close>

definition find_order ::
  "message \<Rightarrow> order list option \<Rightarrow> error + (string \<times> order list) option" where
  "find_order m node =
     (case node of
        None \<Rightarrow> Inr None
      | Some [] \<Rightarrow> Inr None
      | Some (x # xs) \<Rightarrow>
         (case msg_order_id m of
            None \<Rightarrow> Inl (KeyError ''order_id'')
          | Some i \<Rightarrow> (if i \<in> set (map oid (x # xs)) then Inr (Some (i, x # xs))
                        else Inr None)))"

text \<open>The list with the size of the first order of that id overwritten, and the size it had.\<close>

definition change_level :: "string \<Rightarrow> rat \<Rightarrow> order list \<Rightarrow> rat \<times> order list" where
  "change_level i new_size os =
     (let index = list_index (map oid os) i
      in (osize (os ! index), os[index := (os ! index)\<lparr>osize := new_size\<rparr>]))"

text \<open>
  The end of \<^verbatim>\<open>change\<close>, after the size was overwritten: the level is looked up again
  on the side that \<^verbatim>\<open>is_bid_side\<close> gives.
\<close>

definition change_node :: "book \<Rightarrow> message \<Rightarrow> string \<Rightarrow> rat \<Rightarrow> rat \<Rightarrow> rat \<Rightarrow> outcome result" where
  "change_node b m s price new_size old_size =
     (case is_bid_side s of
        Inl e \<Rightarrow> (Inl e, b)
      | Inr bid \<Rightarrow>
         (case find_order m (sd_get (if bid then bids b else asks b) price) of
            Inl e \<Rightarrow> (Inl e, b)
          | Inr None \<Rightarrow> (Inr (Message ''Failed to find node at this price for change''), b)
          | Inr (Some f) \<Rightarrow> (Inr (Change (Some price) (new_size - old_size)), b)))"

definition change :: "book \<Rightarrow> message \<Rightarrow> outcome result" where
  "change b m =
     (case msg_new_size m of
        None \<Rightarrow> (Inr (Message ''Failed to find new size at this price for change''), b)
      | Some nv \<Rightarrow>
     (case msg_price m of
        None \<Rightarrow> (Inr (Message ''Failed to find new price for change''), b)
      | Some pv \<Rightarrow>
     (case msg_side m of
        None \<Rightarrow> (Inl (KeyError ''side''), b)
      | Some s \<Rightarrow>
         (let new_size = Decimal nv; price = Decimal pv in
          if s = ''buy'' then
            (case find_order m (get_bids b price) of
               Inl e \<Rightarrow> (Inl e, b)
             | Inr None \<Rightarrow> (Inr (Message ''Failed to find bids at this price for change''), b)
             | Inr (Some (i, os)) \<Rightarrow>
                (case change_level i new_size os of
                   (old_size, os') \<Rightarrow>
                     change_node (set_bids price os' b) m s price new_size old_size))
          else
            (case find_order m (get_asks b price) of
               Inl e \<Rightarrow> (Inl e, b)
             | Inr None \<Rightarrow> (Inr (Message ''Failed to find asks at this price for change''), b)
             | Inr (Some (i, os)) \<Rightarrow>
                (case change_level i new_size os of
                   (old_size, os') \<Rightarrow>
                     change_node (set_asks price os' b) m s price new_size old_size))))))"

subsection \<open>reset\_book and on\_message\<close>

text \<open>The message that \<^verbatim>\<open>reset_book\<close> builds from a triple of the snapshot.\<close>

definition snapshot_message :: "string \<Rightarrow> rat \<times> rat \<times> string \<Rightarrow> message" where
  "snapshot_message s e =
     (case e of (p, z, i) \<Rightarrow>
        \<lparr>msg_sequence = None, msg_type = None, msg_side = Some s,
         msg_price = Some (Dec p), msg_size = Some (Dec z), msg_remaining_size = None,
         msg_new_size = None, msg_order_id = None, msg_id = Some i,
         msg_maker_order_id = None, msg_reason = None, msg_product_id = None\<rparr>)"

text \<open>
  A \<^verbatim>\<open>for\<close> statement of \<^verbatim>\<open>reset_book\<close> over one side of the snapshot; it stops at the
  first exception.
\<close>

fun add_all :: "string \<Rightarrow> (rat \<times> rat \<times> string) list \<Rightarrow> book \<Rightarrow> unit result" where
  "add_all s [] b = (Inr (), b)"
| "add_all s (e # es) b =
     (case add b (snapshot_message s e) of
        (Inl err, b') \<Rightarrow> (Inl err, b')
      | (Inr r, b') \<Rightarrow> add_all s es b')"

definition reset_book :: "book \<Rightarrow> unit result" where
  "reset_book b =
     (let b1 = b\<lparr>asks := [], bids := []\<rparr> in
      case get_product_order_book b1 of
        Inl e \<Rightarrow> (Inl e, b1)
      | Inr (res, b2) \<Rightarrow>
         (case add_all ''buy'' (snap_bids res) b2 of
            (Inl e, b3) \<Rightarrow> (Inl e, b3)
          | (Inr u, b3) \<Rightarrow>
             (case add_all ''sell'' (snap_asks res) b3 of
                (Inl e, b4) \<Rightarrow> (Inl e, b4)
              | (Inr u', b4) \<Rightarrow> (Inr (), b4\<lparr>sequence := snap_sequence res\<rparr>))))"

text \<open>\<^verbatim>\<open>on_sequence_gap\<close> resets the book and prints the gap.\<close>

definition on_sequence_gap :: "book \<Rightarrow> int \<Rightarrow> int \<Rightarrow> unit result" where
  "on_sequence_gap b gap_start gap_end = reset_book b"

text \<open>The \<^verbatim>\<open>if\<close>/\<^verbatim>\<open>elif\<close> chain of \<^verbatim>\<open>on_message\<close> on the message type.\<close>

definition dispatch :: "book \<Rightarrow> message \<Rightarrow> string \<Rightarrow> outcome result" where
  "dispatch b m ty =
     (if ty = ''open'' then add b m
      else if ty = ''done'' \<and> msg_price m \<noteq> None then remove b m
      else if ty = ''done'' \<and> msg_reason m = Some ''filled'' then remove b m
      else if ty = ''match'' then match b m
      else if ty = ''change'' then change b m
      else if ty = ''received'' then (Inr PyNone, b)
      else (Inr (Message ''Untreated message type''), b))"

text \<open>
  \<^verbatim>\<open>on_message\<close>. Writing the message to \<^verbatim>\<open>_log_to\<close> does not touch the book and is
  left out. The ticker and the sequence are set only when the method called returns.
\<close>

definition get_sequence :: "message \<Rightarrow> int" where
  "get_sequence m = (case msg_sequence m of None \<Rightarrow> -1 | Some n \<Rightarrow> n)"

definition on_message :: "book \<Rightarrow> message \<Rightarrow> outcome result" where
  "on_message b m =
     (if sequence b = -1 then
        (case reset_book b of
           (Inl e, b') \<Rightarrow> (Inl e, b')
         | (Inr u, b') \<Rightarrow> (Inr (Message ''Reset book due to negative sequence''), b'))
      else if get_sequence m \<le> sequence b then
        (Inr (Message ''Current book sequence beyond this order''), b)
      else if get_sequence m > sequence b + 1 then
        (case on_sequence_gap b (sequence b) (get_sequence m) of
           (Inl e, b') \<Rightarrow> (Inl e, b')
         | (Inr u, b') \<Rightarrow> (Inr (Message ''Sequence gap to this order''), b'))
      else
        (case msg_type m of
           None \<Rightarrow> (Inl (KeyError ''type''), b)
         | Some t \<Rightarrow>
            (case dispatch b m t of
               (Inl e, b') \<Rightarrow> (Inl e, b')
             | (Inr r, b') \<Rightarrow>
                 (Inr r, b'\<lparr>current_ticker := msg_product_id m,
                             sequence := get_sequence m\<rparr>))))"

subsection \<open>A book and messages to run the methods on\<close>

text \<open>
  The snapshot with one bid (100, size 2, id a) and one ask (101, size 3, id b) at
  sequence 10, the book \<^verbatim>\<open>reset_book\<close> builds from it, and the message with no key.
\<close>

definition snapshot10 :: snapshot where
  "snapshot10 =
     \<lparr>snap_sequence = 10, snap_bids = [(100, 2, ''a'')], snap_asks = [(101, 3, ''b'')]\<rparr>"

definition book10 :: book where
  "book10 =
     \<lparr>asks = [(101, [\<lparr>oid = ''b'', oside = ''sell'', oprice = 101, osize = 3\<rparr>])],
      bids = [(100, [\<lparr>oid = ''a'', oside = ''buy'', oprice = 100, osize = 2\<rparr>])],
      sequence = 10, current_ticker = None, client = []\<rparr>"

definition no_keys :: message where
  "no_keys =
     \<lparr>msg_sequence = None, msg_type = None, msg_side = None,
      msg_price = None, msg_size = None, msg_remaining_size = None,
      msg_new_size = None, msg_order_id = None, msg_id = None,
      msg_maker_order_id = None, msg_reason = None, msg_product_id = None\<rparr>"



subsection \<open>Notions for the statements\<close>



text \<open>Both key lists in ascending order, as in every SortedDict.\<close>

definition book_sorted :: "book \<Rightarrow> bool" where
  "book_sorted b = (sd_sorted (bids b) \<and> sd_sorted (asks b))"

text \<open>The books that a new \<^verbatim>\<open>OrderBook\<close> gets to by messages.\<close>

inductive reachable :: "book \<Rightarrow> bool" where
  reachable_init: "reachable (init cl)"
| reachable_on_message: "reachable b \<Longrightarrow> reachable (snd (on_message b m))"

text \<open>No price of either side is mapped to the empty list.\<close>

definition no_empty_level :: "book \<Rightarrow> bool" where
  "no_empty_level b =
     (list_all (\<lambda>kv. snd kv \<noteq> []) (bids b) \<and> list_all (\<lambda>kv. snd kv \<noteq> []) (asks b))"

section \<open>Properties\<close>

subsection \<open>The sorted dict\<close>


lemma keys_setitem: "fst ` set (sd_setitem k v d) = insert k (fst ` set d)"
proof (induction d)
  case Nil
  show ?case by simp
next
  case (Cons kv d)
  obtain k' v' where kv: "kv = (k', v')" by (cases kv)
  show ?case
  proof (cases "k = k'")
    case True
    then show ?thesis by (simp add: kv)
  next
    case False
    show ?thesis
    proof (cases "k < k'")
      case True
      with False show ?thesis by (simp add: kv)
    next
      case ge: False
      with False have "sd_setitem k v (kv # d) = kv # sd_setitem k v d" by (simp add: kv)
      then show ?thesis using Cons.IH by (simp add: insert_commute)
    qed
  qed
qed

lemma sd_sorted_Cons:
  "sd_sorted (kv # d) = ((\<forall>x \<in> fst ` set d. fst kv < x) \<and> sd_sorted d)"
  by (simp add: sd_sorted_def)

lemma sd_sorted_Nil: "sd_sorted []"
  by (simp add: sd_sorted_def)

lemma sd_sorted_setitem: "sd_sorted d \<Longrightarrow> sd_sorted (sd_setitem k v d)"
proof (induction d)
  case Nil
  then show ?case by (simp add: sd_sorted_def)
next
  case (Cons kv d)
  obtain k' v' where kv: "kv = (k', v')" by (cases kv)
  from Cons.prems have above: "\<forall>x \<in> fst ` set d. k' < x" and sd: "sd_sorted d"
    by (simp_all add: sd_sorted_Cons kv)
  consider "k = k'" | "k < k'" | "k' < k" using less_linear by blast
  then show ?case
  proof cases
    case 1
    with above sd show ?thesis by (simp add: kv sd_sorted_Cons)
  next
    case 2
    have "\<forall>x \<in> fst ` set d. k < x"
      using above 2 by (meson less_trans)
    with 2 above sd show ?thesis
      by (simp add: kv sd_sorted_Cons)
  next
    case 3
    have "\<forall>x \<in> fst ` set (sd_setitem k v d). k' < x"
      unfolding keys_setitem using above 3 by blast
    moreover have "sd_sorted (sd_setitem k v d)" using Cons.IH sd by blast
    ultimately show ?thesis using 3
      by (simp add: kv sd_sorted_Cons)
  qed
qed

lemma sd_sorted_filter: "sd_sorted d \<Longrightarrow> sd_sorted (filter P d)"
  unfolding sd_sorted_def by (induction d) auto

lemma sd_sorted_delitem: "sd_sorted d \<Longrightarrow> sd_delitem k d = Inr d' \<Longrightarrow> sd_sorted d'"
  by (auto simp: sd_delitem_def sd_sorted_filter split: if_splits)

lemma sd_get_delitem:
  "sd_delitem k d = Inr d' \<Longrightarrow> sd_get d' k' = (if k' = k then None else sd_get d k')"
proof -
  have "map_of (filter (\<lambda>kv. fst kv \<noteq> k) d) k' = (if k' = k then None else map_of d k')"
    by (induction d) auto
  moreover assume "sd_delitem k d = Inr d'"
  ultimately show ?thesis
    by (auto simp: sd_delitem_def sd_get_def split: if_splits)
qed

lemma sd_sorted_last: "sd_sorted d \<Longrightarrow> d \<noteq> [] \<Longrightarrow> fst (last d) = Max (fst ` set d)"
proof (induction d)
  case Nil
  then show ?case by simp
next
  case (Cons kv d)
  show ?case
  proof (cases "d = []")
    case True
    then show ?thesis by simp
  next
    case False
    with Cons have ih: "fst (last d) = Max (fst ` set d)" by (simp add: sd_sorted_Cons)
    have "fst kv < fst (last d)" using Cons.prems False by (simp add: sd_sorted_Cons)
    with ih False show ?thesis by (simp add: max_def)
  qed
qed

lemma sd_sorted_hd: "sd_sorted d \<Longrightarrow> d \<noteq> [] \<Longrightarrow> fst (hd d) = Min (fst ` set d)"
proof (cases d)
  case Nil
  assume "d \<noteq> []" with Nil show ?thesis by simp
next
  case (Cons kv d')
  assume "sd_sorted d"
  with Cons have "\<forall>x \<in> fst ` set d'. fst kv < x" by (simp add: sd_sorted_Cons)
  then have "Min (insert (fst kv) (fst ` set d')) = fst kv"
    by (intro Min_eqI) (auto intro: less_imp_le)
  with Cons show ?thesis by simp
qed

lemma peekitem_last: "d \<noteq> [] \<Longrightarrow> sd_peekitem d (-1) = Inr (last d)"
  by (cases d rule: rev_cases) (auto simp: sd_peekitem_def nth_append)

lemma peekitem_first: "d \<noteq> [] \<Longrightarrow> sd_peekitem d 0 = Inr (hd d)"
  by (cases d) (auto simp: sd_peekitem_def)

lemma peekitem_empty: "sd_peekitem [] i = Inl IndexError"
  by (simp add: sd_peekitem_def)

subsection \<open>The best bid and the best ask\<close>

text \<open>
  C3. \<^verbatim>\<open>get_bid\<close> returns the highest price among the bid levels and \<^verbatim>\<open>get_ask\<close> the
  lowest price among the ask levels; each raises (IndexError, from \<^verbatim>\<open>peekitem\<close>) exactly
  when its side has no level. The hypothesis is the order of a SortedDict's keys, which
  every book has that a new \<^verbatim>\<open>OrderBook\<close> gets to (\<open>reachable_sorted\<close> below).
\<close>

theorem best_bid_ask:
  assumes "book_sorted b"
  shows "get_bid b = (if bids b = [] then Inl IndexError else Inr (Max (fst ` set (bids b))))
       \<and> get_ask b = (if asks b = [] then Inl IndexError else Inr (Min (fst ` set (asks b))))"
  using assms
  by (simp add: book_sorted_def get_bid_def get_ask_def peekitem_empty peekitem_last
      peekitem_first sd_sorted_last sd_sorted_hd)

theorem best_bid_ask_witness:
  "book_sorted book10 \<and> book_sorted (init [])
   \<and> get_bid book10 = Inr 100 \<and> get_ask book10 = Inr 101
   \<and> get_bid (init []) = Inl IndexError \<and> get_ask (init []) = Inl IndexError"
  using best_bid_ask [of book10] best_bid_ask [of "init []"]
  by (simp add: book10_def init_def book_sorted_def sd_sorted_def)

subsection \<open>Stale messages\<close>

text \<open>
  C5. On a book whose sequence is not -1, a message whose sequence is at most the
  book's returns the diagnostic \<^verbatim>\<open>Current book sequence beyond this order\<close> and leaves
  the whole book as it was: both sides, the sequence, the ticker.
\<close>

theorem stale_message_ignored:
  "sequence b \<noteq> -1 \<Longrightarrow> get_sequence m \<le> sequence b \<Longrightarrow>
   on_message b m = (Inr (Message ''Current book sequence beyond this order''), b)"
  by (simp add: on_message_def)

theorem stale_message_ignored_witness:
  "sequence book10 \<noteq> -1
   \<and> get_sequence (no_keys\<lparr>msg_sequence := Some 10, msg_type := Some ''open''\<rparr>)
       \<le> sequence book10
   \<and> on_message book10 (no_keys\<lparr>msg_sequence := Some 10, msg_type := Some ''open''\<rparr>)
       = (Inr (Message ''Current book sequence beyond this order''), book10)"
  using stale_message_ignored
          [of book10 "no_keys\<lparr>msg_sequence := Some 10, msg_type := Some ''open''\<rparr>"]
  by (simp add: book10_def no_keys_def get_sequence_def)

subsection \<open>Lookups after a store\<close>



lemma get_asks_set_bids: "get_asks (set_bids p os b) q = get_asks b q"
  by (simp add: get_asks_def set_bids_def)

lemma get_bids_set_asks: "get_bids (set_asks p os b) q = get_bids b q"
  by (simp add: get_bids_def set_asks_def)

subsection \<open>add\<close>







subsection \<open>remove without a price\<close>

text \<open>
  C10. A remove message with no price looks the level up at the sentinel price -1. On a
  book with no level at -1 it returns (None, 0) and leaves the book as it was, wherever
  an order of that id rests.
\<close>

theorem remove_without_price:
  assumes "msg_price m = None" and "msg_side m = Some s"
    and "get_bids b (-1) = None" and "get_asks b (-1) = None"
  shows "remove b m = (Inr (Change None 0), b)"
  using assms by (simp add: remove_def remove_outcome_def Let_def)

theorem remove_without_price_witness:
  "msg_price (no_keys\<lparr>msg_order_id := Some ''a'', msg_side := Some ''buy''\<rparr>) = None
   \<and> get_bids book10 (-1) = None \<and> get_asks book10 (-1) = None
   \<and> get_bids book10 100 = Some [\<lparr>oid = ''a'', oside = ''buy'', oprice = 100, osize = 2\<rparr>]
   \<and> remove book10 (no_keys\<lparr>msg_order_id := Some ''a'', msg_side := Some ''buy''\<rparr>)
       = (Inr (Change None 0), book10)"
  using remove_without_price
          [of "no_keys\<lparr>msg_order_id := Some ''a'', msg_side := Some ''buy''\<rparr>" "''buy''" book10]
  by (simp add: no_keys_def book10_def get_bids_def get_asks_def sd_get_def)

text \<open>
  The same through \<^verbatim>\<open>on_message\<close>: an in-order done message with reason filled and no
  price changes neither side, and the sequence moves on.
\<close>

lemma on_message_done_without_price:
  assumes "sequence b \<noteq> -1" and "get_sequence m = sequence b + 1"
    and "msg_type m = Some ''done''" and "msg_reason m = Some ''filled''"
    and "msg_price m = None" and "msg_side m = Some s"
    and "get_bids b (-1) = None" and "get_asks b (-1) = None"
  shows "on_message b m =
           (Inr (Change None 0),
            b\<lparr>current_ticker := msg_product_id m, sequence := sequence b + 1\<rparr>)"
  using assms
  by (simp add: on_message_def dispatch_def remove_def remove_outcome_def Let_def)

subsection \<open>match\<close>

text \<open>
  What \<^verbatim>\<open>match\<close> does when the maker order is the head of the level: the rest of the
  list is stored when the sizes are equal, the head with its size lowered otherwise.
\<close>

lemma match_at_head:
  assumes "msg_size m = Some sv" and "msg_price m = Some pv" and "msg_side m = Some s"
    and "(if s = ''buy'' then get_bids b (Decimal pv) else get_asks b (Decimal pv))
           = Some (x # xs)"
    and "msg_maker_order_id m = Some (oid x)"
  shows "match b m =
           (Inr (Change (Some (Decimal pv)) (- Decimal sv)),
            (if s = ''buy'' then set_bids else set_asks) (Decimal pv)
              (if osize x = Decimal sv then xs
               else x\<lparr>osize := osize x - Decimal sv\<rparr> # xs) b)"
  using assms by (simp add: match_def match_head_def Let_def split: if_splits)

text \<open>
  C7. A match message finds a non-empty level at its price on its side and names a
  maker order that is not the head of the level: \<^verbatim>\<open>match\<close> raises AssertionError, and
  the book is as before. When there is no level at the price, it returns a diagnostic
  string instead.
\<close>

theorem match_maker_not_head:
  assumes "msg_size m = Some sv" and "msg_price m = Some pv" and "msg_side m = Some s"
  shows "((if s = ''buy'' then get_bids b (Decimal pv) else get_asks b (Decimal pv))
            = Some (x # xs)
          \<and> msg_maker_order_id m = Some mk \<and> mk \<noteq> oid x
          \<longrightarrow> match b m = (Inl AssertionError, b))
       \<and> ((if s = ''buy'' then get_bids b (Decimal pv) else get_asks b (Decimal pv)) = None
          \<longrightarrow> match b m =
                (Inr (Message (if s = ''buy''
                               then ''Failed to find bids at this price for match''
                               else ''Failed to find asks at this price for match'')), b))"
  using assms by (auto simp: match_def match_head_def Let_def)

theorem match_maker_not_head_witness:
  "match (book10\<lparr>bids := [(100, [\<lparr>oid = ''a'', oside = ''buy'', oprice = 100, osize = 2\<rparr>,
                               \<lparr>oid = ''c'', oside = ''buy'', oprice = 100, osize = 1\<rparr>])]\<rparr>)
     (no_keys\<lparr>msg_side := Some ''buy'', msg_price := Some (Txt 100), msg_size := Some (Txt 1),
              msg_maker_order_id := Some ''c''\<rparr>)
     = (Inl AssertionError,
        book10\<lparr>bids := [(100, [\<lparr>oid = ''a'', oside = ''buy'', oprice = 100, osize = 2\<rparr>,
                                \<lparr>oid = ''c'', oside = ''buy'', oprice = 100, osize = 1\<rparr>])]\<rparr>)
   \<and> match book10
       (no_keys\<lparr>msg_side := Some ''sell'', msg_price := Some (Txt 102), msg_size := Some (Txt 1),
                msg_maker_order_id := Some ''b''\<rparr>)
     = (Inr (Message ''Failed to find asks at this price for match''), book10)"
  using match_maker_not_head
          [of "no_keys\<lparr>msg_side := Some ''buy'', msg_price := Some (Txt 100),
                 msg_size := Some (Txt 1), msg_maker_order_id := Some ''c''\<rparr>"
              "Txt 1" "Txt 100" "''buy''"
              "book10\<lparr>bids := [(100, [\<lparr>oid = ''a'', oside = ''buy'', oprice = 100, osize = 2\<rparr>,
                               \<lparr>oid = ''c'', oside = ''buy'', oprice = 100, osize = 1\<rparr>])]\<rparr>"
              "\<lparr>oid = ''a'', oside = ''buy'', oprice = 100, osize = 2\<rparr>"
              "[\<lparr>oid = ''c'', oside = ''buy'', oprice = 100, osize = 1\<rparr>]" "''c''"]
        match_maker_not_head
          [of "no_keys\<lparr>msg_side := Some ''sell'', msg_price := Some (Txt 102),
                 msg_size := Some (Txt 1), msg_maker_order_id := Some ''b''\<rparr>"
              "Txt 1" "Txt 102" "''sell''" book10]
  by (simp add: no_keys_def book10_def get_bids_def get_asks_def sd_get_def)

text \<open>
  C8 fails on the last order of a level. The ask level at 101 holds the one order b of
  size 3; a match of size 3 against it stores the empty list at 101 and the level stays
  in the dict, where the claim has it deleted.
\<close>

theorem match_whole_fill_keeps_level:
  "match book10
     (no_keys\<lparr>msg_side := Some ''sell'', msg_price := Some (Txt 101), msg_size := Some (Txt 3),
              msg_maker_order_id := Some ''b''\<rparr>)
     = (Inr (Change (Some 101) (- 3)), book10\<lparr>asks := [(101, [])]\<rparr>)"
  by (simp add: match_def match_head_def Let_def no_keys_def book10_def get_asks_def
      set_asks_def sd_get_def)

text \<open>
  C1 fails after the same step, seen from \<^verbatim>\<open>on_message\<close>. The new book resets to the
  snapshot; the in-order match message 11 fills the only bid at 100; the bid index then
  maps 100 to the empty list, and \<^verbatim>\<open>get_bid\<close> gives 100 as the best bid.
\<close>

theorem on_message_match_leaves_empty_level:
  "on_message (init [snapshot10]) no_keys
     = (Inr (Message ''Reset book due to negative sequence''), book10)
   \<and> on_message book10
       (no_keys\<lparr>msg_sequence := Some 11, msg_type := Some ''match'', msg_side := Some ''buy'',
                msg_price := Some (Txt 100), msg_size := Some (Txt 2),
                msg_maker_order_id := Some ''a''\<rparr>)
     = (Inr (Change (Some 100) (- 2)), book10\<lparr>bids := [(100, [])], sequence := 11\<rparr>)
   \<and> get_bids (book10\<lparr>bids := [(100, [])], sequence := 11\<rparr>) 100 = Some []
   \<and> get_bid (book10\<lparr>bids := [(100, [])], sequence := 11\<rparr>) = Inr 100"
  by (simp add: on_message_def reset_book_def get_product_order_book_def init_def
      snapshot10_def snapshot_message_def add_def add_order_def add_id_def add_size_def
      get_bids_def get_asks_def set_bids_def set_asks_def sd_get_def book10_def
      no_keys_def get_sequence_def dispatch_def match_def match_head_def Let_def
      get_bid_def sd_peekitem_def)

subsection \<open>Messages with a missing key\<close>

text \<open>
  C4, as the code has it. An in-order change message with no new size, or with no
  price, is skipped with a diagnostic string: nothing is raised, both sides stay, and
  the sequence (with the ticker) moves to the message's.
\<close>

theorem change_missing_field_skipped:
  assumes "sequence b \<noteq> -1" and "get_sequence m = sequence b + 1"
    and "msg_type m = Some ''change''"
    and "msg_new_size m = None \<or> msg_price m = None"
  shows "on_message b m =
           (Inr (Message (if msg_new_size m = None
                          then ''Failed to find new size at this price for change''
                          else ''Failed to find new price for change'')),
            b\<lparr>current_ticker := msg_product_id m, sequence := sequence b + 1\<rparr>)"
  using assms
  by (auto simp: on_message_def dispatch_def change_def split: option.splits)

theorem change_missing_field_skipped_witness:
  "on_message book10
     (no_keys\<lparr>msg_sequence := Some 11, msg_type := Some ''change'', msg_side := Some ''buy'',
              msg_price := Some (Txt 100), msg_order_id := Some ''a''\<rparr>)
     = (Inr (Message ''Failed to find new size at this price for change''),
        book10\<lparr>current_ticker := None, sequence := 11\<rparr>)"
  using change_missing_field_skipped
          [of book10 "no_keys\<lparr>msg_sequence := Some 11, msg_type := Some ''change'',
                 msg_side := Some ''buy'', msg_price := Some (Txt 100),
                 msg_order_id := Some ''a''\<rparr>"]
  by (simp add: no_keys_def book10_def get_sequence_def)

text \<open>
  C4 as stated fails on an open message: with neither size nor remaining size,
  \<^verbatim>\<open>add\<close> raises KeyError out of \<^verbatim>\<open>on_message\<close>, and the sequence stays at 10.
\<close>

theorem open_without_size_raises:
  "on_message book10
     (no_keys\<lparr>msg_sequence := Some 11, msg_type := Some ''open'', msg_side := Some ''buy'',
              msg_price := Some (Txt 100), msg_order_id := Some ''c''\<rparr>)
     = (Inl (KeyError ''remaining_size''), book10)
   \<and> sequence book10 = 10"
  by (simp add: on_message_def dispatch_def add_def add_order_def add_id_def add_size_def
      no_keys_def book10_def get_sequence_def)

subsection \<open>change\<close>










subsection \<open>reset\_book\<close>







subsection \<open>Sequence gaps\<close>



subsection \<open>The key order is kept\<close>

text \<open>
  Every method leaves both key lists in ascending order, also when it raises, so the
  hypotheses of \<open>best_bid_ask\<close> hold of every book a new \<^verbatim>\<open>OrderBook\<close> gets to.
\<close>

lemma set_bids_sorted: "book_sorted b \<Longrightarrow> book_sorted (set_bids p os b)"
  by (simp add: book_sorted_def set_bids_def sd_sorted_setitem)

lemma set_asks_sorted: "book_sorted b \<Longrightarrow> book_sorted (set_asks p os b)"
  by (simp add: book_sorted_def set_asks_def sd_sorted_setitem)

lemma remove_bids_sorted: "book_sorted b \<Longrightarrow> book_sorted (snd (remove_bids p b))"
  by (auto simp: book_sorted_def remove_bids_def sd_sorted_delitem split: sum.splits)

lemma remove_asks_sorted: "book_sorted b \<Longrightarrow> book_sorted (snd (remove_asks p b))"
  by (auto simp: book_sorted_def remove_asks_def sd_sorted_delitem split: sum.splits)

lemma add_sorted: "book_sorted b \<Longrightarrow> book_sorted (snd (add b m))"
  by (simp add: add_def set_bids_sorted set_asks_sorted split: sum.splits option.splits)

text \<open>The book after \<^verbatim>\<open>remove\<close>: as before, with one level stored, or with one deleted.\<close>

lemma remove_cases:
  "snd (remove b m) = b
   \<or> (\<exists>p kept. kept \<noteq> [] \<and> snd (remove b m) = set_bids p kept b)
   \<or> (\<exists>p. snd (remove b m) = snd (remove_bids p b))
   \<or> (\<exists>p kept. kept \<noteq> [] \<and> snd (remove b m) = set_asks p kept b)
   \<or> (\<exists>p. snd (remove b m) = snd (remove_asks p b))"
proof (cases "msg_side m")
  case None
  then show ?thesis by (simp add: remove_def Let_def)
next
  case (Some s)
  let ?price = "case msg_price m of None \<Rightarrow> -1 | Some v \<Rightarrow> Decimal v"
  let ?sz = "case msg_size m of None \<Rightarrow> 0 | Some v \<Rightarrow> Decimal v"
  show ?thesis
  proof (cases "s = ''buy''")
    case True
    show ?thesis
    proof (cases "get_bids b ?price")
      case None
      with Some True show ?thesis by (simp add: remove_def Let_def)
    next
      case lvl: (Some fbids)
      obtain kept sz' price' found where
        loop: "remove_loop (msg_order_id m) fbids ([], ?sz, ?price, False)
                 = (kept, sz', price', found)"
        by (metis prod_cases4)
      show ?thesis
      proof (cases "kept = []")
        case True
        with Some \<open>s = ''buy''\<close> lvl loop
        have "snd (remove b m) = snd (remove_bids price' b)"
          by (simp add: remove_def Let_def split: sum.splits prod.splits)
        then show ?thesis by blast
      next
        case False
        with Some True lvl loop
        have "snd (remove b m) = set_bids price' kept b"
          by (simp add: remove_def Let_def)
        with False show ?thesis by blast
      qed
    qed
  next
    case False
    show ?thesis
    proof (cases "get_asks b ?price")
      case None
      with Some False show ?thesis by (simp add: remove_def Let_def)
    next
      case lvl: (Some fasks)
      obtain kept sz' price' found where
        loop: "remove_loop (msg_order_id m) fasks ([], ?sz, ?price, False)
                 = (kept, sz', price', found)"
        by (metis prod_cases4)
      show ?thesis
      proof (cases "kept = []")
        case True
        with Some \<open>s \<noteq> ''buy''\<close> lvl loop
        have "snd (remove b m) = snd (remove_asks price' b)"
          by (simp add: remove_def Let_def split: sum.splits prod.splits)
        then show ?thesis by blast
      next
        case nonempty: False
        with Some False lvl loop
        have "snd (remove b m) = set_asks price' kept b"
          by (simp add: remove_def Let_def)
        with nonempty show ?thesis by blast
      qed
    qed
  qed
qed

lemma remove_sorted: "book_sorted b \<Longrightarrow> book_sorted (snd (remove b m))"
  using remove_cases [of b m]
  by (auto simp: set_bids_sorted set_asks_sorted remove_bids_sorted remove_asks_sorted)

lemma match_sorted: "book_sorted b \<Longrightarrow> book_sorted (snd (match b m))"
  by (simp add: match_def Let_def set_bids_sorted set_asks_sorted
      split: option.splits list.splits sum.splits)

lemma change_node_book: "snd (change_node b m s price new_size old_size) = b"
  by (simp add: change_node_def split: sum.splits option.splits)

lemma change_sorted: "book_sorted b \<Longrightarrow> book_sorted (snd (change b m))"
  by (simp add: change_def Let_def change_node_book set_bids_sorted set_asks_sorted
      split: option.splits sum.splits prod.splits)

lemma add_all_sorted: "book_sorted b \<Longrightarrow> book_sorted (snd (add_all s es b))"
proof (induction es arbitrary: b)
  case Nil
  then show ?case by simp
next
  case (Cons e es)
  obtain r b' where step: "add b (snapshot_message s e) = (r, b')"
    by (cases "add b (snapshot_message s e)")
  with add_sorted [OF Cons.prems, of "snapshot_message s e"] have "book_sorted b'" by simp
  with Cons.IH [of b'] step show ?case by (cases r) simp_all
qed

lemma reset_book_sorted: "book_sorted (snd (reset_book b))"
proof -
  let ?b1 = "b\<lparr>asks := [], bids := []\<rparr>"
  have b1: "book_sorted ?b1" by (simp add: book_sorted_def sd_sorted_Nil)
  show ?thesis
  proof (cases "client b")
    case Nil
    with b1 show ?thesis by (simp add: reset_book_def Let_def get_product_order_book_def)
  next
    case (Cons res rest)
    let ?b2 = "?b1\<lparr>client := rest\<rparr>"
    have b2: "book_sorted ?b2" using b1 by (simp add: book_sorted_def)
    obtain r3 b3 where run3: "add_all ''buy'' (snap_bids res) ?b2 = (r3, b3)"
      by (cases "add_all ''buy'' (snap_bids res) ?b2")
    with add_all_sorted [OF b2, of "''buy''" "snap_bids res"] have b3: "book_sorted b3" by simp
    obtain r4 b4 where run4: "add_all ''sell'' (snap_asks res) b3 = (r4, b4)"
      by (cases "add_all ''sell'' (snap_asks res) b3")
    with add_all_sorted [OF b3, of "''sell''" "snap_asks res"] have b4: "book_sorted b4" by simp
    then have "book_sorted (b4\<lparr>sequence := snap_sequence res\<rparr>)" by (simp add: book_sorted_def)
    with Cons run3 run4 b3 b4 show ?thesis
      by (simp add: reset_book_def Let_def get_product_order_book_def split: sum.splits)
  qed
qed

lemma dispatch_sorted: "book_sorted b \<Longrightarrow> book_sorted (snd (dispatch b m t))"
  by (simp add: dispatch_def add_sorted remove_sorted match_sorted change_sorted)

lemma on_message_sorted:
  assumes "book_sorted b"
  shows "book_sorted (snd (on_message b m))"
proof -
  obtain r b' where reset: "reset_book b = (r, b')" by (cases "reset_book b")
  with reset_book_sorted [of b] have b': "book_sorted b'" by simp
  have disp: "book_sorted (snd (dispatch b m t))" for t
    using assms by (rule dispatch_sorted)
  have upd: "book_sorted (c\<lparr>current_ticker := x, sequence := n\<rparr>)" if "book_sorted c" for c x n
    using that by (simp add: book_sorted_def)
  show ?thesis
  proof (cases "msg_type m")
    case None
    with assms reset b' show ?thesis
      by (simp add: on_message_def on_sequence_gap_def split: sum.splits)
  next
    case (Some t)
    obtain rd bd where d: "dispatch b m t = (rd, bd)" by (cases "dispatch b m t")
    with disp [of t] have "book_sorted bd" by simp
    with Some d assms reset b' upd show ?thesis
      by (simp add: on_message_def on_sequence_gap_def split: sum.splits)
  qed
qed

lemma reachable_sorted: "reachable b \<Longrightarrow> book_sorted b"
proof (induction rule: reachable.induct)
  case (reachable_init cl)
  show ?case by (simp add: init_def book_sorted_def sd_sorted_Nil)
next
  case (reachable_on_message b m)
  then show ?case by (simp add: on_message_sorted)
qed

subsection \<open>Where an empty level can come from\<close>

text \<open>
  Every message whose type is not match keeps the levels non-empty, also when the
  method raises: \<^verbatim>\<open>add\<close> and \<^verbatim>\<open>change\<close> store non-empty lists, \<^verbatim>\<open>remove\<close> deletes the
  level it has emptied, \<^verbatim>\<open>reset_book\<close> only adds. The empty level of
  \<open>on_message_match_leaves_empty_level\<close> is the work of \<^verbatim>\<open>match\<close> alone.
\<close>

lemma list_all_setitem: "list_all P d \<Longrightarrow> P (k, v) \<Longrightarrow> list_all P (sd_setitem k v d)"
  by (induction d) auto

lemma list_all_delitem: "list_all P d \<Longrightarrow> sd_delitem k d = Inr d' \<Longrightarrow> list_all P d'"
  by (auto simp: sd_delitem_def list_all_iff split: if_splits)

lemma set_bids_no_empty: "no_empty_level b \<Longrightarrow> os \<noteq> [] \<Longrightarrow> no_empty_level (set_bids p os b)"
  by (simp add: no_empty_level_def set_bids_def list_all_setitem)

lemma set_asks_no_empty: "no_empty_level b \<Longrightarrow> os \<noteq> [] \<Longrightarrow> no_empty_level (set_asks p os b)"
  by (simp add: no_empty_level_def set_asks_def list_all_setitem)

lemma remove_bids_no_empty: "no_empty_level b \<Longrightarrow> no_empty_level (snd (remove_bids p b))"
  by (auto simp: no_empty_level_def remove_bids_def list_all_delitem split: sum.splits)

lemma remove_asks_no_empty: "no_empty_level b \<Longrightarrow> no_empty_level (snd (remove_asks p b))"
  by (auto simp: no_empty_level_def remove_asks_def list_all_delitem split: sum.splits)

lemma add_no_empty: "no_empty_level b \<Longrightarrow> no_empty_level (snd (add b m))"
  by (simp add: add_def set_bids_no_empty set_asks_no_empty split: sum.splits option.splits)

lemma remove_no_empty: "no_empty_level b \<Longrightarrow> no_empty_level (snd (remove b m))"
  using remove_cases [of b m]
  by (auto simp: set_bids_no_empty set_asks_no_empty remove_bids_no_empty remove_asks_no_empty)

lemma find_order_nonempty: "find_order m node = Inr (Some (i, os)) \<Longrightarrow> os \<noteq> []"
  by (auto simp: find_order_def split: option.splits list.splits if_splits)

lemma change_level_nonempty: "os \<noteq> [] \<Longrightarrow> change_level i z os = (old, os') \<Longrightarrow> os' \<noteq> []"
  by (auto simp: change_level_def Let_def)

lemma change_no_empty:
  assumes "no_empty_level b"
  shows "no_empty_level (snd (change b m))"
proof -
  have bids: "no_empty_level (set_bids p os' b)"
    if "find_order m node = Inr (Some (i, os))" and "change_level i z os = (old, os')"
    for node i os z old os' p
    using that assms find_order_nonempty change_level_nonempty set_bids_no_empty by blast
  have asks: "no_empty_level (set_asks p os' b)"
    if "find_order m node = Inr (Some (i, os))" and "change_level i z os = (old, os')"
    for node i os z old os' p
    using that assms find_order_nonempty change_level_nonempty set_asks_no_empty by blast
  show ?thesis
    using assms bids asks
    by (simp add: change_def Let_def change_node_book
        split: option.splits sum.splits prod.splits)
qed

lemma add_all_no_empty: "no_empty_level b \<Longrightarrow> no_empty_level (snd (add_all s es b))"
proof (induction es arbitrary: b)
  case Nil
  then show ?case by simp
next
  case (Cons e es)
  obtain r b' where step: "add b (snapshot_message s e) = (r, b')"
    by (cases "add b (snapshot_message s e)")
  with add_no_empty [OF Cons.prems, of "snapshot_message s e"] have "no_empty_level b'" by simp
  with Cons.IH [of b'] step show ?case by (cases r) simp_all
qed

lemma reset_book_no_empty: "no_empty_level (snd (reset_book b))"
proof -
  let ?b1 = "b\<lparr>asks := [], bids := []\<rparr>"
  have b1: "no_empty_level ?b1" by (simp add: no_empty_level_def)
  show ?thesis
  proof (cases "client b")
    case Nil
    with b1 show ?thesis by (simp add: reset_book_def Let_def get_product_order_book_def)
  next
    case (Cons res rest)
    let ?b2 = "?b1\<lparr>client := rest\<rparr>"
    have b2: "no_empty_level ?b2" using b1 by (simp add: no_empty_level_def)
    obtain r3 b3 where run3: "add_all ''buy'' (snap_bids res) ?b2 = (r3, b3)"
      by (cases "add_all ''buy'' (snap_bids res) ?b2")
    with add_all_no_empty [OF b2, of "''buy''" "snap_bids res"]
    have b3: "no_empty_level b3" by simp
    obtain r4 b4 where run4: "add_all ''sell'' (snap_asks res) b3 = (r4, b4)"
      by (cases "add_all ''sell'' (snap_asks res) b3")
    with add_all_no_empty [OF b3, of "''sell''" "snap_asks res"]
    have b4: "no_empty_level b4" by simp
    then have "no_empty_level (b4\<lparr>sequence := snap_sequence res\<rparr>)"
      by (simp add: no_empty_level_def)
    with Cons run3 run4 b3 b4 show ?thesis
      by (simp add: reset_book_def Let_def get_product_order_book_def split: sum.splits)
  qed
qed

lemma on_message_no_empty:
  assumes "no_empty_level b" and "msg_type m \<noteq> Some ''match''"
  shows "no_empty_level (snd (on_message b m))"
proof -
  obtain r b' where reset: "reset_book b = (r, b')" by (cases "reset_book b")
  with reset_book_no_empty [of b] have b': "no_empty_level b'" by simp
  have upd: "no_empty_level (c\<lparr>current_ticker := x, sequence := n\<rparr>)"
    if "no_empty_level c" for c x n
    using that by (simp add: no_empty_level_def)
  show ?thesis
  proof (cases "msg_type m")
    case None
    with assms reset b' show ?thesis
      by (simp add: on_message_def on_sequence_gap_def split: sum.splits)
  next
    case (Some t)
    with assms(2) have t: "t \<noteq> ''match''" by simp
    obtain rd bd where d: "dispatch b m t = (rd, bd)" by (cases "dispatch b m t")
    have "no_empty_level (snd (dispatch b m t))"
      using assms(1) t
      by (simp add: dispatch_def add_no_empty remove_no_empty change_no_empty)
    with d have "no_empty_level bd" by simp
    with Some d assms reset b' upd show ?thesis
      by (simp add: on_message_def on_sequence_gap_def split: sum.splits)
  qed
qed

end
